theory Spec2Isabelle
  imports Complex_Main
begin

section \<open>Values of the ledger\<close>

text \<open>
  The embedding follows \<^verbatim>\<open>banking_system.py\<close>. A \<^verbatim>\<open>UUID\<close> and a \<^verbatim>\<open>datetime\<close> are opaque
  values, taken as natural numbers; the values that \<^verbatim>\<open>uuid4()\<close> and \<^verbatim>\<open>datetime.now()\<close>
  draw are arguments of the function that draws them. A \<^verbatim>\<open>Decimal\<close> is a finite decimal
  number, taken as the rational it denotes (NaN and the infinities are not amounts
  here); its sums and differences are rounded as the decimal context rounds them, see
  below. A Python exception is a value of \<open>error\<close>: a \<^verbatim>\<open>ValueError\<close> with its message, a
  \<^verbatim>\<open>KeyError\<close> with its key, or the \<^verbatim>\<open>decimal.Overflow\<close> of the context. An \<^verbatim>\<open>Account\<close> is a
  mutable object: it lives in a heap of objects, addressed by a reference, and the
  repositories hold references to it.
\<close>

type_synonym UUID = nat
type_synonym datetime = nat
type_synonym Decimal = rat
type_synonym ref = nat

datatype error = ValueError string | KeyError UUID | Overflow

text \<open>
  \<^verbatim>\<open>str.isdigit\<close>: the string is not empty and every character is a digit. Among the
  code points below 256 the digits are \<^verbatim>\<open>0\<close> to \<^verbatim>\<open>9\<close> and the superscripts one, two and
  three (U+00B9, U+00B2, U+00B3).
\<close>

definition isdigit_char :: "char \<Rightarrow> bool" where
  "isdigit_char c =
     (let n = (of_char c :: nat) in (48 \<le> n \<and> n \<le> 57) \<or> n = 178 \<or> n = 179 \<or> n = 185)"

definition isdigit :: "string \<Rightarrow> bool" where
  "isdigit s = (s \<noteq> [] \<and> list_all isdigit_char s)"

subsection \<open>Decimal arithmetic in the default context\<close>

text \<open>
  The code never sets a decimal context, so \<^verbatim>\<open>+\<close> and \<^verbatim>\<open>-\<close> on \<^verbatim>\<open>Decimal\<close> work in the
  default one: precision 28, \<^verbatim>\<open>ROUND_HALF_EVEN\<close>, \<^verbatim>\<open>Emax = 999999\<close>, \<^verbatim>\<open>Emin = -999999\<close>, the
  \<^verbatim>\<open>Overflow\<close> signal trapped. The exact sum or difference \<open>z\<close> is rounded to 28
  significant digits: to a multiple of \<open>10 powi q\<close>, where \<open>q\<close> is the exponent of the
  leading digit of \<open>z\<close> (\<open>adjusted z\<close>) minus 27, and at least
  \<^verbatim>\<open>Etiny = Emin - 28 + 1\<close>; ties go to the even neighbour. When the rounded value reaches
  \<open>10 powi (Emax + 1)\<close> the operation raises \<^verbatim>\<open>decimal.Overflow\<close>. \<open>ndigits n\<close> is the number
  of decimal digits of \<open>n\<close>; \<open>adjusted\<close> finds the leading exponent of a fraction from the
  digit counts of its numerator and denominator.
\<close>

definition Emax :: int where
  "Emax = 999999"

definition Etiny :: int where
  "Etiny = - 1000026"

fun ndigits :: "nat \<Rightarrow> nat" where
  "ndigits n = (if n < 10 then 1 else Suc (ndigits (n div 10)))"

declare ndigits.simps [simp del]

definition adjusted :: "Decimal \<Rightarrow> int" where
  "adjusted z =
     (case quotient_of \<bar>z\<bar> of
        (p, q) \<Rightarrow>
          let d = int (ndigits (nat p)) - int (ndigits (nat q))
          in if 10 powi d \<le> \<bar>z\<bar> then d else d - 1)"

definition round_half_even :: "rat \<Rightarrow> int" where
  "round_half_even x =
     (let f = \<lfloor>x\<rfloor>; d = x - of_int f
      in if d < 1 / 2 then f else if 1 / 2 < d then f + 1
         else if even f then f else f + 1)"

definition round_context :: "Decimal \<Rightarrow> Decimal" where
  "round_context z =
     (if z = 0 then 0
      else let q = max (adjusted z - 27) Etiny
           in of_int (round_half_even (z / 10 powi q)) * 10 powi q)"

definition fix_context :: "Decimal \<Rightarrow> error + Decimal" where
  "fix_context z =
     (let r = round_context z
      in if 10 powi (Emax + 1) \<le> \<bar>r\<bar> then Inl Overflow else Inr r)"

subsection \<open>Account\<close>

record Account =
  customer_id :: UUID
  account_number :: string
  balance :: Decimal
  account_id :: UUID

text \<open>The constructor with \<^verbatim>\<open>__post_init__\<close>; the last argument is the \<^verbatim>\<open>uuid4()\<close> drawn.\<close>

definition new_Account :: "UUID \<Rightarrow> string \<Rightarrow> Decimal \<Rightarrow> UUID \<Rightarrow> error + Account" where
  "new_Account cid num bal aid =
     (if \<not> isdigit num \<or> length num \<noteq> 10
      then Inl (ValueError ''Account number must be 10 digits'')
      else Inr \<lparr>Account.customer_id = cid, account_number = num, balance = bal,
                account_id = aid\<rparr>)"

definition deposit :: "Account \<Rightarrow> Decimal \<Rightarrow> error + Account" where
  "deposit self amount =
     (if amount < 0 then Inl (ValueError ''Deposit amount must be greater than 0'')
      else case fix_context (balance self + amount) of
             Inl e \<Rightarrow> Inl e
           | Inr b \<Rightarrow> Inr (self\<lparr>balance := b\<rparr>))"

definition withdraw :: "Account \<Rightarrow> Decimal \<Rightarrow> error + Account" where
  "withdraw self amount =
     (if amount \<le> 0 then Inl (ValueError ''Withdraw amount must be greater than 0'')
      else if amount > balance self then Inl (ValueError ''Insufficient balance'')
      else case fix_context (balance self - amount) of
             Inl e \<Rightarrow> Inl e
           | Inr b \<Rightarrow> Inr (self\<lparr>balance := b\<rparr>))"

subsection \<open>Customer\<close>

record Customer =
  name :: string
  email :: string
  phone_number :: string
  customer_id :: UUID

definition new_Customer :: "string \<Rightarrow> string \<Rightarrow> string \<Rightarrow> UUID \<Rightarrow> error + Customer" where
  "new_Customer nm em ph cid =
     (if \<not> isdigit ph \<or> length ph \<noteq> 12
      then Inl (ValueError
        ''Invalid phone number. Please input phone number starting with '63' PH code'')
      else if CHR ''@'' \<notin> set em then Inl (ValueError ''Invalid email'')
      else Inr \<lparr>name = nm, email = em, phone_number = ph, customer_id = cid\<rparr>)"

subsection \<open>TransactionRecord\<close>

datatype TransactionType = DEPOSIT | WITHDRAW

record TransactionRecord =
  account_id :: UUID
  amount :: Decimal
  type :: TransactionType
  transaction_timestamp :: datetime
  transaction_id :: UUID



section \<open>The repositories\<close>

subsection \<open>AccountRepository\<close>

record AccountRepository =
  accounts :: "UUID \<rightharpoonup> ref"
  customer_accounts :: "UUID \<rightharpoonup> ref list"
  current_account_number :: nat

definition AccountRepository_init :: AccountRepository where
  "AccountRepository_init =
     \<lparr>accounts = Map.empty, customer_accounts = Map.empty, current_account_number = 0\<rparr>"

text \<open>
  \<^verbatim>\<open>save_account\<close> reads the fields of the account object from the heap. The result is the
  outcome and the repository as the call leaves it, also when it raises. A subscript on
  a missing key raises \<^verbatim>\<open>KeyError\<close>.
\<close>

definition save_account ::
  "(ref \<Rightarrow> Account) \<Rightarrow> AccountRepository \<Rightarrow> ref \<Rightarrow> (error + unit) \<times> AccountRepository" where
  "save_account hp self account =
     (let aid = Account.account_id (hp account); cid = Account.customer_id (hp account) in
      if aid \<in> dom (accounts self) then (Inl (ValueError ''Account already exists''), self)
      else
        let s1 = self\<lparr>accounts := (accounts self)(aid \<mapsto> account)\<rparr>;
            s2 = (if cid \<notin> dom (customer_accounts s1)
                  then s1\<lparr>customer_accounts := (customer_accounts s1)(cid \<mapsto> [])\<rparr>
                  else s1)
        in case customer_accounts s2 cid of
             None \<Rightarrow> (Inl (KeyError cid), s2)
           | Some l \<Rightarrow>
               (Inr (), s2\<lparr>customer_accounts := (customer_accounts s2)(cid \<mapsto> l @ [account])\<rparr>))"

text \<open>
  The format \<^verbatim>\<open>010d\<close> of a number that is never negative: its decimal digits, padded
  with zeros on the left to a width of at least 10.
\<close>

fun str_nat :: "nat \<Rightarrow> string" where
  "str_nat n =
     (if n < 10 then [char_of (48 + n)] else str_nat (n div 10) @ [char_of (48 + n mod 10)])"

declare str_nat.simps [simp del]

definition format_010d :: "nat \<Rightarrow> string" where
  "format_010d n = (let s = str_nat n in replicate (10 - length s) (CHR ''0'') @ s)"

definition generate_account_number :: "AccountRepository \<Rightarrow> string \<times> AccountRepository" where
  "generate_account_number self =
     (let s = self\<lparr>current_account_number := current_account_number self + 1\<rparr>
      in (format_010d (current_account_number s), s))"

definition find_account_by_id :: "AccountRepository \<Rightarrow> UUID \<Rightarrow> error + ref" where
  "find_account_by_id self aid =
     (case accounts self aid of None \<Rightarrow> Inl (KeyError aid) | Some account \<Rightarrow> Inr account)"

definition find_accounts_by_customer_id :: "AccountRepository \<Rightarrow> UUID \<Rightarrow> ref list" where
  "find_accounts_by_customer_id self cid =
     (case customer_accounts self cid of None \<Rightarrow> [] | Some l \<Rightarrow> l)"

subsection \<open>TransactionRepository\<close>

record TransactionRepository =
  transactions :: "UUID \<rightharpoonup> TransactionRecord list"

definition TransactionRepository_init :: TransactionRepository where
  "TransactionRepository_init = \<lparr>transactions = Map.empty\<rparr>"

definition get_transactions ::
  "TransactionRepository \<Rightarrow> UUID \<Rightarrow> error + TransactionRecord list" where
  "get_transactions self aid =
     (if aid \<notin> dom (transactions self)
      then Inl (ValueError ''Account has not made transactions'')
      else case transactions self aid of None \<Rightarrow> Inl (KeyError aid) | Some l \<Rightarrow> Inr l)"

definition store_transaction ::
  "TransactionRepository \<Rightarrow> TransactionRecord \<Rightarrow> (error + unit) \<times> TransactionRepository" where
  "store_transaction self transaction_record =
     (let aid = TransactionRecord.account_id transaction_record;
          s1 = (if aid \<notin> dom (transactions self)
                then self\<lparr>transactions := (transactions self)(aid \<mapsto> [])\<rparr>
                else self)
      in case transactions s1 aid of
           None \<Rightarrow> (Inl (KeyError aid), s1)
         | Some l \<Rightarrow> (Inr (), s1\<lparr>transactions := (transactions s1)(aid \<mapsto> l @ [transaction_record])\<rparr>))"

section \<open>The services\<close>

text \<open>
  The state all services share: the heap of \<^verbatim>\<open>Account\<close> objects (every reference below
  \<open>next_ref\<close> is an object that was constructed) and the two repositories. Every call
  returns its outcome and the state as it leaves it, also when it raises.
\<close>

record world =
  heap :: "ref \<Rightarrow> Account"
  next_ref :: ref
  account_repository :: AccountRepository
  transaction_repository :: TransactionRepository

definition world_init :: "(ref \<Rightarrow> Account) \<Rightarrow> world" where
  "world_init hp =
     \<lparr>heap = hp, next_ref = 0, account_repository = AccountRepository_init,
      transaction_repository = TransactionRepository_init\<rparr>"

text \<open>The methods \<^verbatim>\<open>deposit\<close> and \<^verbatim>\<open>withdraw\<close> called on the object at a reference.\<close>

definition Account_deposit :: "world \<Rightarrow> ref \<Rightarrow> Decimal \<Rightarrow> (error + unit) \<times> world" where
  "Account_deposit w self amt =
     (case deposit (heap w self) amt of
        Inl e \<Rightarrow> (Inl e, w)
      | Inr a \<Rightarrow> (Inr (), w\<lparr>heap := (heap w)(self := a)\<rparr>))"

definition Account_withdraw :: "world \<Rightarrow> ref \<Rightarrow> Decimal \<Rightarrow> (error + unit) \<times> world" where
  "Account_withdraw w self amt =
     (case withdraw (heap w self) amt of
        Inl e \<Rightarrow> (Inl e, w)
      | Inr a \<Rightarrow> (Inr (), w\<lparr>heap := (heap w)(self := a)\<rparr>))"

subsection \<open>AccountService\<close>

text \<open>\<open>fresh_id\<close> is the \<^verbatim>\<open>uuid4()\<close> drawn for the new account.\<close>

definition create_account :: "world \<Rightarrow> Customer \<Rightarrow> UUID \<Rightarrow> (error + ref) \<times> world" where
  "create_account w input_customer fresh_id =
     (case generate_account_number (account_repository w) of
        (number, repo1) \<Rightarrow>
          let w1 = w\<lparr>account_repository := repo1\<rparr> in
          case new_Account (Customer.customer_id input_customer) number 0 fresh_id of
            Inl e \<Rightarrow> (Inl e, w1)
          | Inr obj \<Rightarrow>
              let new_account = next_ref w1;
                  w2 = w1\<lparr>heap := (heap w1)(new_account := obj), next_ref := Suc new_account\<rparr>
              in case save_account (heap w2) (account_repository w2) new_account of
                   (Inl e, repo2) \<Rightarrow> (Inl e, w2\<lparr>account_repository := repo2\<rparr>)
                 | (Inr u, repo2) \<Rightarrow> (Inr new_account, w2\<lparr>account_repository := repo2\<rparr>))"

subsection \<open>TransactionService\<close>

text \<open>\<open>now\<close> and \<open>tid\<close> are the \<^verbatim>\<open>datetime.now()\<close> and the \<^verbatim>\<open>uuid4()\<close> of the new record.\<close>

definition create_transaction_record ::
  "UUID \<Rightarrow> Decimal \<Rightarrow> TransactionType \<Rightarrow> datetime \<Rightarrow> UUID \<Rightarrow> TransactionRecord" where
  "create_transaction_record aid amt ty now tid =
     \<lparr>TransactionRecord.account_id = aid, amount = amt, type = ty,
      transaction_timestamp = now, transaction_id = tid\<rparr>"

definition process_transaction ::
  "world \<Rightarrow> UUID \<Rightarrow> Decimal \<Rightarrow> TransactionType \<Rightarrow> datetime \<Rightarrow> UUID
     \<Rightarrow> (error + TransactionRecord) \<times> world" where
  "process_transaction w aid amt transaction_type now tid =
     (if amt < 0 then (Inl (ValueError ''Amount should be positive value''), w)
      else case find_account_by_id (account_repository w) aid of
        Inl e \<Rightarrow> (Inl e, w)
      | Inr account \<Rightarrow>
          (case (if transaction_type = DEPOSIT then Account_deposit w account amt
                 else (Inr (), w)) of
             (Inl e, w1) \<Rightarrow> (Inl e, w1)
           | (Inr u, w1) \<Rightarrow>
               (case (if transaction_type = WITHDRAW then Account_withdraw w1 account amt
                      else (Inr (), w1)) of
                  (Inl e, w2) \<Rightarrow> (Inl e, w2)
                | (Inr u', w2) \<Rightarrow>
                    (Inr (create_transaction_record aid amt transaction_type now tid), w2))))"

definition make_transaction ::
  "world \<Rightarrow> UUID \<Rightarrow> Decimal \<Rightarrow> TransactionType \<Rightarrow> datetime \<Rightarrow> UUID
     \<Rightarrow> (error + unit) \<times> world" where
  "make_transaction w aid amt transaction_type now tid =
     (case process_transaction w aid amt transaction_type now tid of
        (Inl e, w1) \<Rightarrow> (Inl e, w1)
      | (Inr transaction_record, w1) \<Rightarrow>
          (case store_transaction (transaction_repository w1) transaction_record of
             (r, trepo) \<Rightarrow> (r, w1\<lparr>transaction_repository := trepo\<rparr>)))"

subsection \<open>AccountStatement\<close>



section \<open>Sequences of calls\<close>

text \<open>
  A caller's calls, one after the other; a call that raises is caught by the caller and
  the next call runs in the state the failed one left. The calls are those that change
  the state: the two methods of an account object, the two services, and the number
  generator of the account repository.
\<close>

datatype call =
    Call_deposit ref Decimal
  | Call_withdraw ref Decimal
  | Call_make_transaction UUID Decimal TransactionType datetime UUID
  | Call_create_account Customer UUID
  | Call_generate_account_number

fun step :: "world \<Rightarrow> call \<Rightarrow> world" where
  "step w (Call_deposit r amt) = snd (Account_deposit w r amt)"
| "step w (Call_withdraw r amt) = snd (Account_withdraw w r amt)"
| "step w (Call_make_transaction aid amt ty now tid) = snd (make_transaction w aid amt ty now tid)"
| "step w (Call_create_account c fresh_id) = snd (create_account w c fresh_id)"
| "step w Call_generate_account_number =
     w\<lparr>account_repository := snd (generate_account_number (account_repository w))\<rparr>"

fun run :: "world \<Rightarrow> call list \<Rightarrow> world" where
  "run w [] = w"
| "run w (c # cs) = run (step w c) cs"


text \<open>The history an account has: the list under its key, none when the key is absent.\<close>

definition history :: "world \<Rightarrow> UUID \<Rightarrow> TransactionRecord list" where
  "history w aid =
     (case transactions (transaction_repository w) aid of None \<Rightarrow> [] | Some l \<Rightarrow> l)"

definition balances_nonneg :: "world \<Rightarrow> bool" where
  "balances_nonneg w = (\<forall>r < next_ref w. 0 \<le> balance (heap w r))"

section \<open>Notions the properties are stated with\<close>

text \<open>
  The digits \<^verbatim>\<open>0\<close> to \<^verbatim>\<open>9\<close>, and \<^verbatim>\<open>int(s)\<close> of a string of such digits: the number it
  writes in base 10.
\<close>

definition ascii_digit :: "char \<Rightarrow> bool" where
  "ascii_digit c = (48 \<le> (of_char c :: nat) \<and> (of_char c :: nat) \<le> 57)"

definition int_str :: "string \<Rightarrow> nat" where
  "int_str s = foldl (\<lambda>acc c. 10 * acc + (of_char c - 48)) 0 s"

text \<open>
  The state a \<^verbatim>\<open>make_transaction\<close> call that returns leaves: the object \<open>r\<close> with balance
  \<open>bal\<close>, and the record \<open>rec\<close> at the end of its account's history.
\<close>

definition applied :: "world \<Rightarrow> ref \<Rightarrow> Decimal \<Rightarrow> TransactionRecord \<Rightarrow> world" where
  "applied w r bal rec =
     w\<lparr>heap := (heap w)(r := (heap w r)\<lparr>balance := bal\<rparr>),
       transaction_repository := (transaction_repository w)
         \<lparr>transactions := (transactions (transaction_repository w))
            (TransactionRecord.account_id rec \<mapsto>
               history w (TransactionRecord.account_id rec) @ [rec])\<rparr>\<rparr>"

text \<open>
  A state of the demonstration: a customer (id 1) with an account (id 7, the object at
  reference 0) holding 4500, a second customer (id 2) with an account (id 8, the object
  at reference 1) holding 10, and no transaction recorded.
\<close>

definition scenario_account :: Account where
  "scenario_account =
     \<lparr>Account.customer_id = 1, account_number = ''0000000001'', balance = 4500,
      account_id = 7\<rparr>"

definition other_account :: Account where
  "other_account =
     \<lparr>Account.customer_id = 2, account_number = ''0000000002'', balance = 10,
      account_id = 8\<rparr>"

definition scenario_world :: world where
  "scenario_world =
     \<lparr>heap = (\<lambda>r. scenario_account)(1 := other_account), next_ref = 2,
      account_repository =
        \<lparr>accounts = [7 \<mapsto> 0, 8 \<mapsto> 1], customer_accounts = [1 \<mapsto> [0], 2 \<mapsto> [1]],
         current_account_number = 2\<rparr>,
      transaction_repository = \<lparr>transactions = Map.empty\<rparr>\<rparr>"

text \<open>
  Every id the repository indexes leads to a constructed object that carries this id: what
  \<^verbatim>\<open>save_account\<close> stores, as long as no caller overwrites the \<^verbatim>\<open>account_id\<close> of a stored
  object. Two ids then never lead to the same object.
\<close>

definition repo_consistent :: "world \<Rightarrow> bool" where
  "repo_consistent w =
     (\<forall>k r. accounts (account_repository w) k = Some r \<longrightarrow>
        r < next_ref w \<and> Account.account_id (heap w r) = k)"

definition scenario_customer :: Customer where
  "scenario_customer =
     \<lparr>name = ''Andrei Mercado'', email = ''AndreiMercado@email.com'',
      phone_number = ''639213423123'', customer_id = 1\<rparr>"



text \<open>
  The account numbers a sequence of calls draws from the generator, in the order drawn:
  one by each \<^verbatim>\<open>create_account\<close> (whether it then returns or raises) and one by each direct
  call of \<^verbatim>\<open>generate_account_number\<close>.
\<close>

fun issued :: "world \<Rightarrow> call list \<Rightarrow> string list" where
  "issued w [] = []"
| "issued w (Call_create_account c u # cs) =
     fst (generate_account_number (account_repository w))
       # issued (step w (Call_create_account c u)) cs"
| "issued w (Call_generate_account_number # cs) =
     fst (generate_account_number (account_repository w))
       # issued (step w Call_generate_account_number) cs"
| "issued w (c # cs) = issued (step w c) cs"

abbreviation counter :: "world \<Rightarrow> nat" where
  "counter w \<equiv> current_account_number (account_repository w)"

text \<open>
  The conditions the specification words for a customer, next to the checks of
  \<^verbatim>\<open>Customer.__post_init__\<close>: a phone of exactly 12 digits that begins with the country code
  \<^verbatim>\<open>63\<close>, and an email with exactly one \<^verbatim>\<open>@\<close> between two parts that are not empty.
\<close>

definition spec_phone_ok :: "string \<Rightarrow> bool" where
  "spec_phone_ok ph = (isdigit ph \<and> length ph = 12 \<and> take 2 ph = ''63'')"

definition spec_email_ok :: "string \<Rightarrow> bool" where
  "spec_email_ok em =
     (count_list em (CHR ''@'') = 1
      \<and> takeWhile (\<lambda>c. c \<noteq> CHR ''@'') em \<noteq> []
      \<and> drop 1 (dropWhile (\<lambda>c. c \<noteq> CHR ''@'') em) \<noteq> [])"

section \<open>Rounding in the decimal context\<close>

lemma ndigits_upper: "n < 10 ^ ndigits n"
proof (induction n rule: ndigits.induct)
  case (1 n)
  show ?case
  proof (cases "n < 10")
    case True
    then show ?thesis by (subst ndigits.simps) simp
  next
    case False
    with 1 have "n div 10 < 10 ^ ndigits (n div 10)" by simp
    then have "n < 10 * 10 ^ ndigits (n div 10)" by simp
    with False show ?thesis by (subst ndigits.simps) simp
  qed
qed

lemma ndigits_lower: "0 < n \<Longrightarrow> 10 ^ (ndigits n - 1) \<le> n"
proof (induction n rule: ndigits.induct)
  case (1 n)
  show ?case
  proof (cases "n < 10")
    case True
    with 1(2) show ?thesis by (subst ndigits.simps) simp
  next
    case False
    then have "0 < n div 10" by simp
    with 1(1) False have "10 ^ (ndigits (n div 10) - 1) \<le> n div 10" by simp
    then have "10 * 10 ^ (ndigits (n div 10) - 1) \<le> n" by simp
    moreover have "0 < ndigits (n div 10)" by (subst ndigits.simps) simp
    then have "(10::nat) * 10 ^ (ndigits (n div 10) - 1) = 10 ^ ndigits (n div 10)"
      by (cases "ndigits (n div 10)") simp_all
    ultimately show ?thesis using False by (subst ndigits.simps) simp
  qed
qed

lemma ndigits_pos: "0 < ndigits n"
  by (subst ndigits.simps) simp

lemma adjusted_bracket:
  assumes "z \<noteq> 0"
  shows "10 powi adjusted z \<le> \<bar>z\<bar> \<and> \<bar>z\<bar> < 10 powi (adjusted z + 1)"
proof -
  obtain p q where pq: "quotient_of \<bar>z\<bar> = (p, q)" by (cases "quotient_of \<bar>z\<bar>")
  then have q: "0 < q" and z: "\<bar>z\<bar> = of_int p / of_int q"
    by (simp_all add: quotient_of_denom_pos quotient_of_div)
  from assms have "0 < \<bar>z\<bar>" by simp
  with z q have p: "0 < p" by (simp add: zero_less_divide_iff)
  define P where "P = ndigits (nat p)"
  define Q where "Q = ndigits (nat q)"
  define d where "d = int P - int Q"
  have P0: "0 < P" and Q0: "0 < Q" by (simp_all add: P_def Q_def ndigits_pos)
  have pu: "(of_int p :: rat) < 10 ^ P"
  proof -
    have "nat p < 10 ^ P" unfolding P_def by (rule ndigits_upper)
    then have "(of_nat (nat p) :: rat) < of_nat (10 ^ P)" by (simp only: of_nat_less_iff)
    with p show ?thesis by simp
  qed
  have pl: "(10::rat) ^ (P - 1) \<le> of_int p"
  proof -
    from p have "10 ^ (P - 1) \<le> nat p" unfolding P_def by (intro ndigits_lower) simp
    then have "(of_nat (10 ^ (P - 1)) :: rat) \<le> of_nat (nat p)" by (simp only: of_nat_le_iff)
    with p show ?thesis by simp
  qed
  have qu: "(of_int q :: rat) < 10 ^ Q"
  proof -
    have "nat q < 10 ^ Q" unfolding Q_def by (rule ndigits_upper)
    then have "(of_nat (nat q) :: rat) < of_nat (10 ^ Q)" by (simp only: of_nat_less_iff)
    with q show ?thesis by simp
  qed
  have ql: "(10::rat) ^ (Q - 1) \<le> of_int q"
  proof -
    from q have "10 ^ (Q - 1) \<le> nat q" unfolding Q_def by (intro ndigits_lower) simp
    then have "(of_nat (10 ^ (Q - 1)) :: rat) \<le> of_nat (nat q)" by (simp only: of_nat_le_iff)
    with q show ?thesis by simp
  qed
  have qpos: "(0::rat) < of_int q" using q by simp
  have ppos: "(0::rat) < of_int p" using p by simp
  have up: "\<bar>z\<bar> < 10 powi (d + 1)"
  proof -
    have "\<bar>z\<bar> < 10 ^ P / of_int q"
      unfolding z using pu qpos by (simp add: divide_strict_right_mono)
    also have "\<dots> \<le> 10 ^ P / 10 ^ (Q - 1)"
      using ql qpos by (intro divide_left_mono) (simp_all add: zero_less_mult_iff)
    also have "\<dots> = 10 powi (int P - int (Q - 1))"
      by (simp add: power_int_diff)
    also have "int P - int (Q - 1) = d + 1"
      using Q0 by (simp add: d_def)
    finally show ?thesis .
  qed
  have low: "10 powi (d - 1) < \<bar>z\<bar>"
  proof -
    have "d - 1 = int (P - 1) - int Q"
      using P0 by (simp add: d_def of_nat_diff)
    then have "(10::rat) powi (d - 1) = 10 powi (int (P - 1) - int Q)"
      by (rule arg_cong)
    also have "\<dots> = 10 ^ (P - 1) / 10 ^ Q"
      by (simp add: power_int_diff)
    also have "\<dots> < 10 ^ (P - 1) / of_int q"
      using qu qpos by (intro divide_strict_left_mono) simp_all
    also have "\<dots> \<le> \<bar>z\<bar>"
      unfolding z using pl qpos by (simp add: divide_right_mono)
    finally show ?thesis .
  qed
  have adj: "adjusted z = (if 10 powi d \<le> \<bar>z\<bar> then d else d - 1)"
    unfolding adjusted_def pq by (simp add: Let_def d_def P_def Q_def)
  show ?thesis
  proof (cases "10 powi d \<le> \<bar>z\<bar>")
    case True
    with adj up show ?thesis by simp
  next
    case False
    with adj low show ?thesis by simp
  qed
qed

lemma powi_less_cancel: "(10::rat) powi m < 10 powi n \<Longrightarrow> m < n"
proof (rule ccontr)
  assume less: "(10::rat) powi m < 10 powi n" and "\<not> m < n"
  then have "n \<le> m" by simp
  then have "(10::rat) powi n \<le> 10 powi m" by (rule power_int_increasing) simp
  with less show False by simp
qed

lemma adjusted_unique:
  assumes "z \<noteq> 0" and "10 powi a \<le> \<bar>z\<bar>" and "\<bar>z\<bar> < 10 powi (a + 1)"
  shows "adjusted z = a"
proof -
  from adjusted_bracket [OF assms(1)]
  have b: "10 powi adjusted z \<le> \<bar>z\<bar>" "\<bar>z\<bar> < 10 powi (adjusted z + 1)" by simp_all
  from b(1) assms(3) have "(10::rat) powi adjusted z < 10 powi (a + 1)" by (rule le_less_trans)
  then have 1: "adjusted z < a + 1" by (rule powi_less_cancel)
  from assms(2) b(2) have "(10::rat) powi a < 10 powi (adjusted z + 1)" by (rule le_less_trans)
  then have 2: "a < adjusted z + 1" by (rule powi_less_cancel)
  from 1 2 show ?thesis by simp
qed


lemma round_half_even_of_int [simp]: "round_half_even (of_int n) = n"
  by (simp add: round_half_even_def)

lemma round_half_even_nonneg: "0 \<le> x \<Longrightarrow> 0 \<le> round_half_even x"
proof -
  assume "0 \<le> x"
  then have "0 \<le> \<lfloor>x\<rfloor>" by simp
  then show ?thesis by (simp add: round_half_even_def Let_def)
qed

lemma round_context_nonneg: "0 \<le> z \<Longrightarrow> 0 \<le> round_context z"
proof -
  assume z: "0 \<le> z"
  have "0 \<le> z / 10 powi q" for q :: int using z by simp
  then have "0 \<le> round_half_even (z / 10 powi q)" for q :: int
    by (rule round_half_even_nonneg)
  then show ?thesis by (simp add: round_context_def Let_def)
qed

lemma round_context_0 [simp]: "round_context 0 = 0"
  by (simp add: round_context_def)

lemma round_context_exact:
  assumes z: "z = of_int c * 10 powi e" and c: "\<bar>c\<bar> < 10 ^ 28" and e: "Etiny \<le> e"
  shows "round_context z = z"
proof (cases "z = 0")
  case True
  then show ?thesis by simp
next
  case False
  define q where "q = max (adjusted z - 27) Etiny"
  have "\<bar>z\<bar> = of_int \<bar>c\<bar> * 10 powi e"
    unfolding z by (simp add: abs_mult power_int_abs)
  also have "\<dots> < of_int (10 ^ 28) * 10 powi e"
    using c by (intro mult_strict_right_mono) (simp_all only: of_int_less_iff, simp)
  also have "\<dots> = 10 powi (e + 28)"
    by (simp add: power_int_add)
  finally have "\<bar>z\<bar> < 10 powi (e + 28)" .
  with adjusted_bracket [OF False] have "(10::rat) powi adjusted z < 10 powi (e + 28)"
    by simp
  then have "adjusted z < e + 28" by (rule powi_less_cancel)
  with e have qe: "q \<le> e" by (simp add: q_def)
  then have "(10::rat) powi e = 10 powi q * 10 powi (e - q)"
    by (simp flip: power_int_add)
  also from qe have "(10::rat) powi (e - q) = 10 ^ nat (e - q)"
    by (simp add: power_int_nonneg_exp)
  finally have "z / 10 powi q = of_int (c * 10 ^ nat (e - q))"
    unfolding z by simp
  then have "of_int (round_half_even (z / 10 powi q)) * 10 powi q = z / 10 powi q * 10 powi q"
    by (simp only: round_half_even_of_int)
  also have "\<dots> = z" by simp
  finally show ?thesis
    using False by (simp add: round_context_def Let_def q_def)
qed

lemma fix_context_exact:
  assumes z: "z = of_int c * 10 powi e" and c: "\<bar>c\<bar> < 10 ^ 28" and e: "Etiny \<le> e"
    and m: "e \<le> Emax - 27"
  shows "fix_context z = Inr z"
proof -
  have "\<bar>z\<bar> = of_int \<bar>c\<bar> * 10 powi e"
    unfolding z by (simp add: abs_mult power_int_abs)
  also have "\<dots> < of_int (10 ^ 28) * 10 powi e"
    using c by (intro mult_strict_right_mono) (simp_all only: of_int_less_iff, simp)
  also have "\<dots> = 10 powi (e + 28)"
    by (simp add: power_int_add)
  also have "\<dots> \<le> 10 powi (Emax + 1)"
    using m by (intro power_int_increasing) simp_all
  finally have "\<not> 10 powi (Emax + 1) \<le> \<bar>z\<bar>" by simp
  then show ?thesis
    by (simp add: fix_context_def round_context_exact [OF z c e])
qed

lemma fix_context_numeral [simp]:
  "numeral k < (10::int) ^ 28 \<Longrightarrow> fix_context (numeral k) = Inr (numeral k)"
  by (rule fix_context_exact [where c = "numeral k" and e = 0])
     (simp_all add: Etiny_def Emax_def)

lemma fix_context_0 [simp]: "fix_context 0 = Inr 0"
  by (rule fix_context_exact [where c = 0 and e = 0]) (simp_all add: Etiny_def Emax_def)

lemma fix_context_nonneg: "fix_context z = Inr r \<Longrightarrow> 0 \<le> z \<Longrightarrow> 0 \<le> r"
  by (auto simp: fix_context_def Let_def round_context_nonneg split: if_splits)

lemma round_context_eval:
  assumes "z \<noteq> 0" and "10 powi a \<le> \<bar>z\<bar>" and "\<bar>z\<bar> < 10 powi (a + 1)"
  shows "round_context z =
     of_int (round_half_even (z / 10 powi (max (a - 27) Etiny))) * 10 powi (max (a - 27) Etiny)"
  using assms(1) by (simp add: round_context_def Let_def adjusted_unique [OF assms])

lemma round_half_even_near:
  assumes "\<bar>x - of_int n\<bar> < 1 / 2"
  shows "round_half_even x = n"
proof (cases "of_int n \<le> x")
  case True
  with assms have "x < of_int n + 1" by linarith
  with True have f: "\<lfloor>x\<rfloor> = n" by (simp add: floor_unique)
  from assms True have "x - of_int n < 1 / 2" by linarith
  with f show ?thesis by (simp add: round_half_even_def)
next
  case False
  with assms have "of_int (n - 1) \<le> x" "x < of_int (n - 1) + 1" by simp_all
  then have f: "\<lfloor>x\<rfloor> = n - 1" by (rule floor_unique)
  from assms False have "1 / 2 < x - of_int (n - 1)" by simp
  with f show ?thesis by (simp add: round_half_even_def)
qed

lemma round_tiny:
  "round_context (4500 + 1 / 10 ^ 30) = 4500" "round_context (4500 - 1 / 10 ^ 30) = 4500"
proof -
  have q: "max (3 - 27) Etiny = - 24" by (simp add: Etiny_def)
  have "round_half_even ((4500 + 1 / 10 ^ 30) / 10 powi (- 24)) = 4500 * 10 ^ 24"
    by (rule round_half_even_near) simp
  moreover have "round_context (4500 + 1 / 10 ^ 30) =
     of_int (round_half_even ((4500 + 1 / 10 ^ 30) / 10 powi (max (3 - 27) Etiny)))
       * 10 powi (max (3 - 27) Etiny)"
    by (rule round_context_eval) simp_all
  ultimately show "round_context (4500 + 1 / 10 ^ 30) = 4500"
    by (simp only: q) simp
  have "round_half_even ((4500 - 1 / 10 ^ 30) / 10 powi (- 24)) = 4500 * 10 ^ 24"
    by (rule round_half_even_near) simp
  moreover have "round_context (4500 - 1 / 10 ^ 30) =
     of_int (round_half_even ((4500 - 1 / 10 ^ 30) / 10 powi (max (3 - 27) Etiny)))
       * 10 powi (max (3 - 27) Etiny)"
    by (rule round_context_eval) simp_all
  ultimately show "round_context (4500 - 1 / 10 ^ 30) = 4500"
    by (simp only: q) simp
qed

section \<open>What one call does\<close>

lemma store_transaction_eq:
  "store_transaction t r =
     (Inr (), t\<lparr>transactions := (transactions t)(TransactionRecord.account_id r \<mapsto>
        (case transactions t (TransactionRecord.account_id r) of None \<Rightarrow> [] | Some l \<Rightarrow> l) @ [r])\<rparr>)"
  by (cases "transactions t (TransactionRecord.account_id r)")
     (simp_all add: store_transaction_def Let_def domIff)

lemma make_transaction_eq:
  "make_transaction w aid amt ty now tid =
     (if amt < 0 then (Inl (ValueError ''Amount should be positive value''), w)
      else case accounts (account_repository w) aid of
        None \<Rightarrow> (Inl (KeyError aid), w)
      | Some r \<Rightarrow>
          (case ty of
             DEPOSIT \<Rightarrow>
               (case fix_context (balance (heap w r) + amt) of
                  Inl e \<Rightarrow> (Inl e, w)
                | Inr b \<Rightarrow>
                    (Inr (), applied w r b (create_transaction_record aid amt DEPOSIT now tid)))
           | WITHDRAW \<Rightarrow>
               if amt \<le> 0
               then (Inl (ValueError ''Withdraw amount must be greater than 0''), w)
               else if amt > balance (heap w r)
               then (Inl (ValueError ''Insufficient balance''), w)
               else (case fix_context (balance (heap w r) - amt) of
                  Inl e \<Rightarrow> (Inl e, w)
                | Inr b \<Rightarrow>
                    (Inr (),
                     applied w r b (create_transaction_record aid amt WITHDRAW now tid)))))"
  by (cases ty; cases "accounts (account_repository w) aid")
     (simp_all add: make_transaction_def process_transaction_def find_account_by_id_def
        Account_deposit_def Account_withdraw_def deposit_def withdraw_def
        store_transaction_eq applied_def history_def create_transaction_record_def
        split: sum.split)

text \<open>
  The two outcomes of \<^verbatim>\<open>make_transaction\<close>: it raises and leaves the state, or it returns
  with the rounded balance \<open>b\<close> in the account and the record in its history.
\<close>

lemma make_transaction_effect:
  assumes "make_transaction w aid amt ty now tid = (res, w')"
  shows "(\<exists>e. res = Inl e \<and> w' = w)
       \<or> (\<exists>r b. res = Inr () \<and> accounts (account_repository w) aid = Some r \<and> 0 \<le> amt
            \<and> (ty = WITHDRAW \<longrightarrow> 0 < amt \<and> amt \<le> balance (heap w r))
            \<and> fix_context (case ty of DEPOSIT \<Rightarrow> balance (heap w r) + amt
                                     | WITHDRAW \<Rightarrow> balance (heap w r) - amt) = Inr b
            \<and> w' = applied w r b (create_transaction_record aid amt ty now tid))"
  using assms
  by (cases ty; cases "accounts (account_repository w) aid")
     (auto simp: make_transaction_eq split: if_splits sum.splits)


lemma heap_applied:
  "heap (applied w r bal rec) = (heap w)(r := (heap w r)\<lparr>balance := bal\<rparr>)"
  by (simp add: applied_def)

lemma account_id_create_transaction_record [simp]:
  "TransactionRecord.account_id (create_transaction_record aid amt ty now tid) = aid"
  by (simp add: create_transaction_record_def)

section \<open>The format of account numbers\<close>

lemma of_char_digit: "d < 10 \<Longrightarrow> (of_char (char_of (48 + d :: nat)) :: nat) = 48 + d"
  by (simp add: of_char_of)

lemma str_nat_digits: "list_all ascii_digit (str_nat n)"
proof (induction n rule: str_nat.induct)
  case (1 n)
  show ?case
  proof (cases "n < 10")
    case True
    then show ?thesis
      by (subst str_nat.simps) (simp add: ascii_digit_def of_char_digit)
  next
    case False
    have "n mod 10 < 10" by simp
    then have "ascii_digit (char_of (48 + n mod 10))"
      unfolding ascii_digit_def by (simp only: of_char_digit) simp
    with False 1 show ?thesis
      by (subst str_nat.simps) simp
  qed
qed

lemma str_nat_nonempty: "str_nat n \<noteq> []"
  by (subst str_nat.simps) simp

lemma length_str_nat_le: "0 < k \<Longrightarrow> n < 10 ^ k \<Longrightarrow> length (str_nat n) \<le> k"
proof (induction n arbitrary: k rule: str_nat.induct)
  case (1 n)
  show ?case
  proof (cases "n < 10")
    case True
    with 1 show ?thesis by (subst str_nat.simps) simp
  next
    case False
    from 1(2,3) False obtain j where k: "k = Suc j" and j: "0 < j"
      by (cases k; cases "k - 1") auto
    from 1(3) k have "n div 10 < 10 ^ j"
      by (simp add: less_mult_imp_div_less mult.commute)
    with 1(1) False j have "length (str_nat (n div 10)) \<le> j" by simp
    with False k show ?thesis by (subst str_nat.simps) simp
  qed
qed

lemma length_str_nat_gt: "10 ^ k \<le> n \<Longrightarrow> k < length (str_nat n)"
proof (induction n arbitrary: k rule: str_nat.induct)
  case (1 n)
  show ?case
  proof (cases "n < 10")
    case True
    have "k = 0"
    proof (cases k)
      case (Suc j)
      have "(1::nat) \<le> 10 ^ j" by simp
      then have "(10::nat) \<le> 10 ^ Suc j" by simp
      moreover from 1(2) have "10 ^ Suc j \<le> n" unfolding Suc .
      ultimately have False using True by linarith
      then show ?thesis ..
    qed simp
    then show ?thesis by (subst str_nat.simps) simp
  next
    case False
    show ?thesis
    proof (cases k)
      case 0
      then show ?thesis using str_nat_nonempty [of n] by (cases "str_nat n") auto
    next
      case (Suc j)
      with 1(2) have "10 ^ j \<le> n div 10"
        by (simp add: less_eq_div_iff_mult_less_eq mult.commute)
      with 1(1) False have "j < length (str_nat (n div 10))" by simp
      with False Suc show ?thesis by (subst str_nat.simps) simp
    qed
  qed
qed

lemma int_str_append: "int_str (s @ [c]) = 10 * int_str s + (of_char c - 48)"
  by (simp add: int_str_def)

lemma int_str_str_nat: "int_str (str_nat n) = n"
proof (induction n rule: str_nat.induct)
  case (1 n)
  show ?case
  proof (cases "n < 10")
    case True
    then show ?thesis
      by (subst str_nat.simps) (simp add: int_str_def of_char_digit)
  next
    case False
    have "n mod 10 < 10" by simp
    then have "(of_char (char_of (48 + n mod 10)) :: nat) - 48 = n mod 10"
      by (simp add: of_char_digit)
    with False 1 show ?thesis
      by (subst str_nat.simps) (simp add: int_str_append)
  qed
qed

lemma int_str_zeros: "int_str (replicate k (CHR ''0'') @ s) = int_str s"
proof -
  have "foldl (\<lambda>acc c. 10 * acc + (of_char c - 48)) 0 (replicate k (CHR ''0'')) = (0::nat)"
    by (induction k) simp_all
  then show ?thesis by (simp add: int_str_def)
qed

lemma int_str_format: "int_str (format_010d n) = n"
  by (simp add: format_010d_def Let_def int_str_zeros int_str_str_nat)

lemma format_digits: "list_all ascii_digit (format_010d n)"
proof -
  have "ascii_digit (CHR ''0'')" by (simp add: ascii_digit_def)
  then have "list_all ascii_digit (replicate k (CHR ''0''))" for k
    by (induction k) simp_all
  then show ?thesis
    by (simp add: format_010d_def Let_def str_nat_digits)
qed

lemma length_format: "length (format_010d n) = max 10 (length (str_nat n))"
  by (simp add: format_010d_def Let_def)

lemma length_format_10: "length (format_010d n) = 10 \<longleftrightarrow> n < 10 ^ 10"
proof (cases "n < 10 ^ 10")
  case True
  have "length (str_nat n) \<le> 10"
    by (rule length_str_nat_le [OF _ True]) simp
  with True show ?thesis by (simp only: length_format) simp
next
  case False
  then have "10 ^ 10 \<le> n" by (simp only: not_less)
  then have "10 < length (str_nat n)" by (rule length_str_nat_gt)
  with False show ?thesis by (simp only: length_format) simp
qed

lemma ascii_digit_isdigit: "ascii_digit c \<Longrightarrow> isdigit_char c"
  by (simp add: ascii_digit_def isdigit_char_def)

lemma isdigit_format: "isdigit (format_010d n)"
proof -
  have "list_all isdigit_char (format_010d n)"
    using format_digits [of n] by (simp add: list_all_iff ascii_digit_isdigit)
  moreover have "format_010d n \<noteq> []"
    by (simp add: format_010d_def Let_def str_nat_nonempty)
  ultimately show ?thesis by (simp add: isdigit_def)
qed

section \<open>Account.withdraw\<close>

lemma fix_context_Inr_iff:
  "fix_context z = Inr r \<longleftrightarrow>
     r = round_context z \<and> \<not> 10 powi (Emax + 1) \<le> \<bar>round_context z\<bar>"
  by (auto simp: fix_context_def Let_def)

lemma fix_context_Inl_iff:
  "fix_context z = Inl e \<longleftrightarrow> e = Overflow \<and> 10 powi (Emax + 1) \<le> \<bar>round_context z\<bar>"
  by (auto simp: fix_context_def Let_def)

lemma no_overflow_small:
  fixes r :: rat
  shows "\<bar>r\<bar> < 10 ^ 28 \<Longrightarrow> \<not> 10 powi (Emax + 1) \<le> \<bar>r\<bar>"
proof -
  assume "\<bar>r\<bar> < 10 ^ 28"
  also have "(10::rat) ^ 28 = 10 powi 28" by simp
  also have "\<dots> \<le> 10 powi (Emax + 1)"
    by (rule power_int_increasing) (simp_all add: Emax_def)
  finally show ?thesis by simp
qed

lemma fix_tiny:
  "fix_context (4500 + 1 / 10 ^ 30) = Inr 4500" "fix_context (4500 - 1 / 10 ^ 30) = Inr 4500"
proof -
  have "\<not> 10 powi (Emax + 1) \<le> \<bar>4500 :: rat\<bar>"
    by (rule no_overflow_small) simp
  then show "fix_context (4500 + 1 / 10 ^ 30) = Inr 4500"
    "fix_context (4500 - 1 / 10 ^ 30) = Inr 4500"
    by (simp_all only: fix_context_Inr_iff round_tiny) simp_all
qed

text \<open>
  C5, as the code has it, on finite decimals. \<^verbatim>\<open>Account.withdraw(amount)\<close> raises the
  invalid-amount error
  (\<^verbatim>\<open>ValueError\<close>, "Withdraw amount must be greater than 0") when \<open>amount \<le> 0\<close>; raises the
  insufficient-funds error (\<^verbatim>\<open>ValueError\<close>, "Insufficient balance") when the amount is
  positive and above the balance, so whenever it is above a balance that is not negative.
  Otherwise, for \<open>0 < amount \<le> balance\<close>, it returns with the balance set to
  \<open>balance - amount\<close> rounded to the 28 significant digits of the decimal context, which
  is not negative, and every other field as it was; the only error left is
  \<^verbatim>\<open>decimal.Overflow\<close>, when the rounded value reaches \<open>10 powi (Emax + 1)\<close>. Whenever
  \<open>balance - amount\<close> is a decimal \<open>c * 10 powi e\<close> of at most 28 digits with an exponent in
  the range of the context, the call returns and the balance is lowered by exactly the
  amount. Withdrawing the whole of a positive balance leaves 0.
\<close>

theorem withdraw_spec:
  "(amt \<le> 0 \<longrightarrow>
      withdraw a amt = Inl (ValueError ''Withdraw amount must be greater than 0''))
   \<and> (0 < amt \<and> balance a < amt \<longrightarrow>
      withdraw a amt = Inl (ValueError ''Insufficient balance''))
   \<and> (0 \<le> balance a \<and> balance a < amt \<longrightarrow>
      withdraw a amt = Inl (ValueError ''Insufficient balance''))
   \<and> (0 < amt \<and> amt \<le> balance a \<longrightarrow>
        (case withdraw a amt of
           Inr a' \<Rightarrow> a' = a\<lparr>balance := round_context (balance a - amt)\<rparr> \<and> 0 \<le> balance a'
         | Inl e \<Rightarrow> e = Overflow \<and> 10 powi (Emax + 1) \<le> round_context (balance a - amt)))
   \<and> (0 < amt \<and> amt \<le> balance a \<and> balance a - amt = of_int c * 10 powi e
        \<and> \<bar>c\<bar> < 10 ^ 28 \<and> Etiny \<le> e \<and> e \<le> Emax - 27 \<longrightarrow>
      withdraw a amt = Inr (a\<lparr>balance := balance a - amt\<rparr>))
   \<and> (0 < balance a \<longrightarrow> withdraw a (balance a) = Inr (a\<lparr>balance := 0\<rparr>))"
proof -
  have rounded: "case withdraw a amt of
           Inr a' \<Rightarrow> a' = a\<lparr>balance := round_context (balance a - amt)\<rparr> \<and> 0 \<le> balance a'
         | Inl e \<Rightarrow> e = Overflow \<and> 10 powi (Emax + 1) \<le> round_context (balance a - amt)"
    if "0 < amt" "amt \<le> balance a"
  proof -
    from that have nn: "0 \<le> round_context (balance a - amt)"
      by (intro round_context_nonneg) simp
    show ?thesis
    proof (cases "fix_context (balance a - amt)")
      case (Inl e)
      then have "e = Overflow \<and> 10 powi (Emax + 1) \<le> \<bar>round_context (balance a - amt)\<bar>"
        by (simp only: fix_context_Inl_iff)
      with that nn Inl show ?thesis
        by (simp add: withdraw_def)
    next
      case (Inr b)
      then have "b = round_context (balance a - amt)"
        by (simp only: fix_context_Inr_iff)
      with that nn Inr show ?thesis
        by (simp add: withdraw_def)
    qed
  qed
  have exact: "withdraw a amt = Inr (a\<lparr>balance := balance a - amt\<rparr>)"
    if "0 < amt" "amt \<le> balance a" "balance a - amt = of_int c * 10 powi e"
      "\<bar>c\<bar> < 10 ^ 28" "Etiny \<le> e" "e \<le> Emax - 27"
    using that fix_context_exact [OF that(3-6)] by (simp add: withdraw_def)
  show ?thesis
    using rounded exact by (simp add: withdraw_def)
qed


theorem withdraw_spec_witness:
  "withdraw scenario_account 0 = Inl (ValueError ''Withdraw amount must be greater than 0'')
   \<and> withdraw scenario_account 10000 = Inl (ValueError ''Insufficient balance'')
   \<and> withdraw scenario_account 500 = Inr (scenario_account\<lparr>balance := 4000\<rparr>)
   \<and> withdraw scenario_account 4500 = Inr (scenario_account\<lparr>balance := 0\<rparr>)"
proof -
  have b: "balance scenario_account = 4500"
    by (simp add: scenario_account_def)
  have x: "balance scenario_account - 500 = of_int 4000 * 10 powi 0"
    "\<bar>4000 :: int\<bar> < 10 ^ 28" "Etiny \<le> 0" "0 \<le> Emax - 27"
    by (simp_all add: b Etiny_def Emax_def)
  from withdraw_spec [of 500 scenario_account 4000 0] x
  have 3: "withdraw scenario_account 500 = Inr (scenario_account\<lparr>balance := 4000\<rparr>)"
    by (simp add: b)
  from withdraw_spec [of 0 scenario_account]
  have 1: "withdraw scenario_account 0
      = Inl (ValueError ''Withdraw amount must be greater than 0'')"
    by simp
  from withdraw_spec [of 10000 scenario_account]
  have 2: "withdraw scenario_account 10000 = Inl (ValueError ''Insufficient balance'')"
    by (simp add: b)
  from withdraw_spec [of 4500 scenario_account]
  have 4: "withdraw scenario_account 4500 = Inr (scenario_account\<lparr>balance := 0\<rparr>)"
    by (simp add: b)
  from 1 2 3 4 show ?thesis by blast
qed

text \<open>
  The claim that the balance decreases by exactly the amount fails where the difference
  needs more than 28 digits: withdrawing \<^verbatim>\<open>Decimal('1E-30')\<close> from a balance of 4500 returns
  and leaves the balance at 4500.
\<close>

theorem withdraw_counterexample:
  "balance scenario_account = 4500
   \<and> (0 :: rat) < 1 / 10 ^ 30
   \<and> 1 / 10 ^ 30 \<le> balance scenario_account
   \<and> withdraw scenario_account (1 / 10 ^ 30) = Inr (scenario_account\<lparr>balance := 4500\<rparr>)
   \<and> (4500 :: rat) \<noteq> 4500 - 1 / 10 ^ 30"
proof -
  have b: "balance scenario_account = 4500"
    by (simp add: scenario_account_def)
  have w: "withdraw scenario_account (1 / 10 ^ 30) = Inr (scenario_account\<lparr>balance := 4500\<rparr>)"
    unfolding withdraw_def b by (simp only: fix_tiny) simp
  from b w show ?thesis by simp
qed

section \<open>TransactionService.make_transaction\<close>





lemma save_account_eq:
  "save_account hp self r =
     (if Account.account_id (hp r) \<in> dom (accounts self)
      then (Inl (ValueError ''Account already exists''), self)
      else (Inr (), self\<lparr>accounts := (accounts self)(Account.account_id (hp r) \<mapsto> r),
               customer_accounts := (customer_accounts self)(Account.customer_id (hp r) \<mapsto>
                 find_accounts_by_customer_id self (Account.customer_id (hp r)) @ [r])\<rparr>))"
  by (cases "customer_accounts self (Account.customer_id (hp r))")
     (simp_all add: save_account_def Let_def domIff find_accounts_by_customer_id_def)

lemma create_account_eq:
  "create_account w c u =
     (let n = current_account_number (account_repository w) + 1;
          repo1 = (account_repository w)\<lparr>current_account_number := n\<rparr>;
          r = next_ref w;
          cid = Customer.customer_id c;
          obj = \<lparr>Account.customer_id = cid, account_number = format_010d n, balance = 0,
                 account_id = u\<rparr>;
          w2 = w\<lparr>heap := (heap w)(r := obj), next_ref := Suc r, account_repository := repo1\<rparr>
      in if \<not> n < 10 ^ 10
         then (Inl (ValueError ''Account number must be 10 digits''),
               w\<lparr>account_repository := repo1\<rparr>)
         else if u \<in> dom (accounts (account_repository w))
         then (Inl (ValueError ''Account already exists''), w2)
         else (Inr r, w2\<lparr>account_repository := repo1
                 \<lparr>accounts := (accounts repo1)(u \<mapsto> r),
                  customer_accounts := (customer_accounts repo1)(cid \<mapsto>
                    find_accounts_by_customer_id repo1 cid @ [r])\<rparr>\<rparr>))"
proof -
  have n: "new_Account cid (format_010d n) b u =
      (if n < 10 ^ 10
       then Inr \<lparr>Account.customer_id = cid, account_number = format_010d n, balance = b,
                 account_id = u\<rparr>
       else Inl (ValueError ''Account number must be 10 digits''))" for cid n b u
    unfolding new_Account_def by (simp only: isdigit_format length_format_10) simp
  show ?thesis
    unfolding create_account_def generate_account_number_def
    by (simp only: Let_def prod.case n) (simp add: save_account_eq)
qed


lemma next_ref_applied [simp]: "next_ref (applied w r bal rec) = next_ref w"
  by (simp add: applied_def)

lemma account_repository_applied [simp]:
  "account_repository (applied w r bal rec) = account_repository w"
  by (simp add: applied_def)

lemma step_deposit:
  "step w (Call_deposit r amt) =
     (if amt < 0 then w
      else case fix_context (balance (heap w r) + amt) of
             Inl e \<Rightarrow> w
           | Inr b \<Rightarrow> w\<lparr>heap := (heap w)(r := (heap w r)\<lparr>balance := b\<rparr>)\<rparr>)"
  by (simp add: Account_deposit_def deposit_def split: sum.split)

lemma step_withdraw:
  "step w (Call_withdraw r amt) =
     (if amt \<le> 0 \<or> balance (heap w r) < amt then w
      else case fix_context (balance (heap w r) - amt) of
             Inl e \<Rightarrow> w
           | Inr b \<Rightarrow> w\<lparr>heap := (heap w)(r := (heap w r)\<lparr>balance := b\<rparr>)\<rparr>)"
  by (simp add: Account_withdraw_def withdraw_def split: sum.split)

lemma next_ref_step: "next_ref w \<le> next_ref (step w c)"
proof (cases c)
  case (Call_make_transaction aid amt ty now tid)
  then show ?thesis
    by (simp add: make_transaction_eq split: option.split TransactionType.split sum.split)
next
  case (Call_create_account cu u)
  then show ?thesis by (simp add: create_account_eq Let_def)
qed (simp_all add: step_deposit step_withdraw split: sum.split del: step.simps(1,2))

lemma balances_nonneg_step:
  assumes "balances_nonneg w"
  shows "balances_nonneg (step w c)"
proof (cases c)
  case (Call_deposit r amt)
  with assms show ?thesis
    by (auto simp: step_deposit balances_nonneg_def simp del: step.simps
             split: sum.split dest: fix_context_nonneg)
next
  case (Call_withdraw r amt)
  with assms show ?thesis
    by (auto simp: step_withdraw balances_nonneg_def simp del: step.simps
             split: sum.split dest: fix_context_nonneg)
next
  case (Call_make_transaction aid amt ty now tid)
  with assms show ?thesis
    by (auto simp: make_transaction_eq balances_nonneg_def heap_applied
             split: option.split TransactionType.split sum.split dest: fix_context_nonneg)
next
  case (Call_create_account cu u)
  with assms show ?thesis
    by (auto simp: create_account_eq Let_def balances_nonneg_def less_Suc_eq)
next
  case Call_generate_account_number
  with assms show ?thesis by (simp add: balances_nonneg_def)
qed

lemma next_ref_run: "next_ref w \<le> next_ref (run w cs)"
proof (induction cs arbitrary: w)
  case (Cons c cs)
  have "next_ref w \<le> next_ref (step w c)" by (rule next_ref_step)
  also have "\<dots> \<le> next_ref (run (step w c) cs)" by (rule Cons.IH)
  finally show ?case by simp
qed simp

lemma balances_nonneg_run: "balances_nonneg w \<Longrightarrow> balances_nonneg (run w cs)"
  by (induction cs arbitrary: w) (simp_all add: balances_nonneg_step del: step.simps)

section \<open>The balance is never negative\<close>

text \<open>
  C1. In every state in which no account has a negative balance (the initial state is
  one), an account that \<^verbatim>\<open>create_account\<close> returns has balance 0, and after any sequence of
  calls of \<^verbatim>\<open>Account.deposit\<close>, \<^verbatim>\<open>Account.withdraw\<close>, \<^verbatim>\<open>make_transaction\<close>,
  \<^verbatim>\<open>create_account\<close> and \<^verbatim>\<open>generate_account_number\<close>, on any accounts and whether each call
  returns or raises, the balance of that account, and of every other account, is at
  least 0.
\<close>

theorem balance_never_negative:
  assumes "balances_nonneg w" and "create_account w c u = (Inr r, w0)"
  shows "balance (heap w0 r) = 0
       \<and> balances_nonneg (run w0 cs)
       \<and> 0 \<le> balance (heap (run w0 cs) r)"
proof -
  from assms(2) have w0: "w0 = step w (Call_create_account c u)" by simp
  from assms(2) have r: "r = next_ref w" "next_ref w0 = Suc r" "balance (heap w0 r) = 0"
    by (auto simp: create_account_eq Let_def split: if_splits)
  have inv: "balances_nonneg (run w0 cs)"
    unfolding w0 by (intro balances_nonneg_run balances_nonneg_step assms(1))
  have "r < next_ref (run w0 cs)"
    using next_ref_run [of w0 cs] r by simp
  with inv have "0 \<le> balance (heap (run w0 cs) r)"
    by (simp add: balances_nonneg_def)
  with inv r show ?thesis by simp
qed

theorem balance_never_negative_witness:
  "balances_nonneg (world_init (\<lambda>r. scenario_account))
   \<and> fst (create_account (world_init (\<lambda>r. scenario_account)) scenario_customer 7) = Inr 0
   \<and> 0 \<le> balance (heap (run (snd (create_account (world_init (\<lambda>r. scenario_account))
                                       scenario_customer 7))
              [Call_make_transaction 7 5000 DEPOSIT 1 1,
               Call_make_transaction 7 10000 WITHDRAW 2 2,
               Call_withdraw 0 500, Call_deposit 0 (- 1)]) 0)"
proof -
  have h1: "balances_nonneg (world_init (\<lambda>r. scenario_account))"
    by (simp add: balances_nonneg_def world_init_def)
  have f: "fst (create_account (world_init (\<lambda>r. scenario_account)) scenario_customer 7) = Inr 0"
    by (simp add: create_account_eq Let_def world_init_def AccountRepository_init_def)
  then have h2: "create_account (world_init (\<lambda>r. scenario_account)) scenario_customer 7 =
      (Inr 0, snd (create_account (world_init (\<lambda>r. scenario_account)) scenario_customer 7))"
    by (simp add: prod_eq_iff)
  from balance_never_negative [OF h1 h2] h1 f show ?thesis
    by blast
qed

section \<open>Distinct ids, distinct objects\<close>

lemma repo_consistent_init: "repo_consistent (world_init hp)"
  by (simp add: repo_consistent_def world_init_def AccountRepository_init_def)

lemma repo_consistent_step:
  assumes "repo_consistent w"
  shows "repo_consistent (step w c)"
proof (cases c)
  case (Call_deposit r amt)
  with assms show ?thesis
    by (auto simp: step_deposit repo_consistent_def simp del: step.simps split: sum.split)
next
  case (Call_withdraw r amt)
  with assms show ?thesis
    by (auto simp: step_withdraw repo_consistent_def simp del: step.simps split: sum.split)
next
  case (Call_make_transaction aid amt ty now tid)
  with assms show ?thesis
    by (auto simp: make_transaction_eq repo_consistent_def heap_applied
             split: option.split TransactionType.split sum.split)
next
  case (Call_create_account cu u)
  with assms show ?thesis
    by (fastforce simp: create_account_eq Let_def repo_consistent_def less_Suc_eq)
next
  case Call_generate_account_number
  with assms show ?thesis
    by (simp add: repo_consistent_def generate_account_number_def)
qed

lemma repo_consistent_run: "repo_consistent w \<Longrightarrow> repo_consistent (run w cs)"
  by (induction cs arbitrary: w) (simp_all add: repo_consistent_step del: step.simps)

lemma repo_consistent_scenario: "repo_consistent scenario_world"
  by (auto simp: repo_consistent_def scenario_world_def scenario_account_def
        other_account_def split: if_splits)

section \<open>What make_transaction leaves alone\<close>

text \<open>
  C10. A call \<^verbatim>\<open>make_transaction(account_id, amount, kind)\<close>, whether it returns or raises,
  leaves every account object other than the one stored under \<^verbatim>\<open>account_id\<close> as it was,
  leaves the history of every other account id as it was, and changes nothing in the
  account repository. In a repository where every id leads to the object carrying it (as
  in every state the services build), the account stored under any other id is unchanged,
  its balance included.
\<close>

theorem make_transaction_frame:
  assumes "make_transaction w aid amt ty now tid = (res, w')"
  shows "(\<forall>r. accounts (account_repository w) aid \<noteq> Some r \<longrightarrow> heap w' r = heap w r)
       \<and> (\<forall>k. k \<noteq> aid \<longrightarrow>
            transactions (transaction_repository w') k = transactions (transaction_repository w) k
            \<and> history w' k = history w k)
       \<and> account_repository w' = account_repository w
       \<and> next_ref w' = next_ref w
       \<and> (repo_consistent w \<longrightarrow>
            (\<forall>k r. k \<noteq> aid \<and> accounts (account_repository w) k = Some r \<longrightarrow>
               heap w' r = heap w r \<and> balance (heap w' r) = balance (heap w r)))"
proof -
  have other: "accounts (account_repository w) aid \<noteq> Some r"
    if "repo_consistent w" "k \<noteq> aid" "accounts (account_repository w) k = Some r" for k r
    using that by (auto simp: repo_consistent_def)
  have obj: "\<forall>r. accounts (account_repository w) aid \<noteq> Some r \<longrightarrow> heap w' r = heap w r"
    using make_transaction_effect [OF assms] by (auto simp: heap_applied)
  have tr: "\<forall>k. k \<noteq> aid \<longrightarrow>
      transactions (transaction_repository w') k = transactions (transaction_repository w) k"
    using make_transaction_effect [OF assms] by (auto simp: applied_def)
  then have hist: "\<forall>k. k \<noteq> aid \<longrightarrow>
      transactions (transaction_repository w') k = transactions (transaction_repository w) k
      \<and> history w' k = history w k"
    by (simp add: history_def)
  have rest: "account_repository w' = account_repository w \<and> next_ref w' = next_ref w"
    using make_transaction_effect [OF assms] by auto
  from obj other have "repo_consistent w \<longrightarrow>
      (\<forall>k r. k \<noteq> aid \<and> accounts (account_repository w) k = Some r \<longrightarrow>
         heap w' r = heap w r \<and> balance (heap w' r) = balance (heap w r))"
    by metis
  with obj hist rest show ?thesis by blast
qed

theorem make_transaction_frame_witness:
  "repo_consistent scenario_world
   \<and> fst (make_transaction scenario_world 7 500 WITHDRAW 3 9) = Inr ()
   \<and> balance (heap (snd (make_transaction scenario_world 7 500 WITHDRAW 3 9)) 1) = 10
   \<and> history (snd (make_transaction scenario_world 7 500 WITHDRAW 3 9)) 8 = []
   \<and> fst (make_transaction scenario_world 7 10000 WITHDRAW 3 9)
       = Inl (ValueError ''Insufficient balance'')
   \<and> balance (heap (snd (make_transaction scenario_world 7 10000 WITHDRAW 3 9)) 1) = 10"
proof -
  have b: "balance (heap scenario_world 0) = 4500" "balance (heap scenario_world 1) = 10"
    "accounts (account_repository scenario_world) 7 = Some 0"
    "accounts (account_repository scenario_world) 8 = Some 1"
    "history scenario_world 8 = []"
    by (simp_all add: scenario_world_def scenario_account_def other_account_def history_def)
  have s: "make_transaction scenario_world 7 500 WITHDRAW 3 9
             = (Inr (), snd (make_transaction scenario_world 7 500 WITHDRAW 3 9))"
    by (simp add: make_transaction_eq b)
  have f: "make_transaction scenario_world 7 10000 WITHDRAW 3 9
             = (Inl (ValueError ''Insufficient balance''),
                snd (make_transaction scenario_world 7 10000 WITHDRAW 3 9))"
    by (simp add: make_transaction_eq b)
  have n: "(8::nat) \<noteq> 7" by simp
  from make_transaction_frame [OF s] repo_consistent_scenario n b
  have 1: "heap (snd (make_transaction scenario_world 7 500 WITHDRAW 3 9)) 1 = heap scenario_world 1"
    and 2: "history (snd (make_transaction scenario_world 7 500 WITHDRAW 3 9)) 8 = history scenario_world 8"
    by blast+
  from make_transaction_frame [OF f] repo_consistent_scenario n b
  have 3: "heap (snd (make_transaction scenario_world 7 10000 WITHDRAW 3 9)) 1 = heap scenario_world 1"
    by blast
  from 1 2 3 s f b repo_consistent_scenario show ?thesis
    by (simp add: prod_eq_iff)
qed

section \<open>AccountRepository.save_account\<close>

text \<open>
  C9. \<^verbatim>\<open>save_account\<close> raises the duplicate error (\<^verbatim>\<open>ValueError\<close>, "Account already exists")
  exactly when the id of the account is already a key of the repository; it raises no
  other error, and when it raises the repository is exactly as before, so the id still
  leads to the one account stored first. When it returns, the id leads to the account,
  the account is at the end of its customer's list, after the accounts the list held in
  their order, and the lists of the other customers and the number counter are as before.
\<close>

theorem save_account_spec:
  assumes "save_account hp self r = (res, self')"
  shows "(res = Inl (ValueError ''Account already exists'')
            \<longleftrightarrow> Account.account_id (hp r) \<in> dom (accounts self))
       \<and> (case res of
            Inl e \<Rightarrow> e = ValueError ''Account already exists'' \<and> self' = self
          | Inr u \<Rightarrow>
              accounts self' = (accounts self)(Account.account_id (hp r) \<mapsto> r)
              \<and> find_account_by_id self' (Account.account_id (hp r)) = Inr r
              \<and> find_accounts_by_customer_id self' (Account.customer_id (hp r))
                  = find_accounts_by_customer_id self (Account.customer_id (hp r)) @ [r]
              \<and> (\<forall>c. c \<noteq> Account.customer_id (hp r) \<longrightarrow>
                    customer_accounts self' c = customer_accounts self c)
              \<and> current_account_number self' = current_account_number self)"
  using assms
  by (auto simp: save_account_eq find_account_by_id_def find_accounts_by_customer_id_def
           split: if_splits)

theorem save_account_spec_witness:
  "save_account (heap scenario_world) (account_repository scenario_world) 0
     = (Inl (ValueError ''Account already exists''), account_repository scenario_world)
   \<and> accounts (account_repository scenario_world) 7 = Some 0
   \<and> fst (save_account ((heap scenario_world)(2 := scenario_account\<lparr>Account.account_id := 9\<rparr>))
             (account_repository scenario_world) 2) = Inr ()
   \<and> find_accounts_by_customer_id
        (snd (save_account ((heap scenario_world)(2 := scenario_account\<lparr>Account.account_id := 9\<rparr>))
                (account_repository scenario_world) 2)) 1 = [0, 2]"
proof -
  let ?hp = "(heap scenario_world)(2 := scenario_account\<lparr>Account.account_id := 9\<rparr>)"
  let ?repo = "account_repository scenario_world"
  have b: "Account.account_id (heap scenario_world 0) = 7" "accounts ?repo 7 = Some 0"
    "Account.account_id (?hp 2) = 9" "Account.customer_id (?hp 2) = 1"
    "accounts ?repo 9 = None" "find_accounts_by_customer_id ?repo 1 = [0]"
    by (simp_all add: scenario_world_def scenario_account_def find_accounts_by_customer_id_def)
  have d: "save_account (heap scenario_world) ?repo 0
      = (fst (save_account (heap scenario_world) ?repo 0),
         snd (save_account (heap scenario_world) ?repo 0))"
    by simp
  have s: "save_account ?hp ?repo 2 = (fst (save_account ?hp ?repo 2), snd (save_account ?hp ?repo 2))"
    by simp
  have s': "fst (save_account ?hp ?repo 2) = Inr ()"
    using save_account_spec [OF s] b
    by (cases "fst (save_account ?hp ?repo 2)") (auto simp: domIff)
  from save_account_spec [OF d] b
  have 1: "save_account (heap scenario_world) ?repo 0
      = (Inl (ValueError ''Account already exists''), ?repo)"
    by (cases "fst (save_account (heap scenario_world) ?repo 0)") (auto simp: domIff prod_eq_iff)
  from save_account_spec [OF s] s' b
  have 2: "find_accounts_by_customer_id (snd (save_account ?hp ?repo 2)) 1 = [0, 2]"
    by simp
  from 1 2 s' b show ?thesis by simp
qed

section \<open>Histories in the order of the calls\<close>












section \<open>AccountRepository.generate_account_number\<close>

lemma counter_step:
  "counter (step w c) =
     (case c of Call_create_account cu u \<Rightarrow> counter w + 1
              | Call_generate_account_number \<Rightarrow> counter w + 1
              | _ \<Rightarrow> counter w)"
proof (cases c)
  case (Call_make_transaction k amt ty now tid)
  have "make_transaction w k amt ty now tid =
      (fst (make_transaction w k amt ty now tid), snd (make_transaction w k amt ty now tid))"
    by simp
  from make_transaction_effect [OF this] show ?thesis
    unfolding Call_make_transaction by auto
next
  case (Call_create_account cu u)
  then show ?thesis by (simp add: create_account_eq Let_def)
next
  case Call_generate_account_number
  then show ?thesis by (simp add: generate_account_number_def)
qed (simp_all add: step_deposit step_withdraw split: sum.split del: step.simps(1,2))

lemma int_str_generate:
  "int_str (fst (generate_account_number self)) = current_account_number self + 1"
  by (simp add: generate_account_number_def int_str_format)

lemma issued_increasing:
  "sorted_wrt (<) (map int_str (issued w cs))
   \<and> (\<forall>s \<in> set (issued w cs). counter w < int_str s)"
proof (induction cs arbitrary: w)
  case Nil
  show ?case by simp
next
  case (Cons c cs)
  note IH = Cons.IH [of "step w c"]
  show ?case
  proof (cases c)
    case (Call_create_account cu u)
    with IH show ?thesis
      by (auto simp: counter_step int_str_generate simp del: step.simps)
  next
    case Call_generate_account_number
    with IH show ?thesis
      by (auto simp: counter_step int_str_generate simp del: step.simps)
  next
    case (Call_deposit r amt)
    with IH show ?thesis by (simp add: counter_step del: step.simps)
  next
    case (Call_withdraw r amt)
    with IH show ?thesis by (simp add: counter_step del: step.simps)
  next
    case (Call_make_transaction k amt ty now tid)
    with IH show ?thesis by (simp add: counter_step del: step.simps)
  qed
qed

lemma issued_distinct: "distinct (issued w cs)"
proof -
  have "sorted_wrt (<) (map int_str (issued w cs))" by (simp add: issued_increasing)
  then have "distinct (map int_str (issued w cs))"
    by (simp add: strict_sorted_iff)
  then show ?thesis by (simp add: distinct_map)
qed

text \<open>
  C8, as the code has it. A call of \<^verbatim>\<open>generate_account_number\<close> adds one to the counter,
  changes nothing else, and returns the counter written in decimal digits \<^verbatim>\<open>0\<close> to \<^verbatim>\<open>9\<close>,
  padded with zeros to at least 10 characters: exactly 10 characters as long as the
  counter stays below \<open>10 ^ 10\<close>, more from then on. The numbers any sequence of calls
  draws are strictly increasing as numbers and pairwise distinct as strings, and all lie
  above the counter the sequence started from. \<^verbatim>\<open>create_account\<close> leaves the counter one
  higher whether it returns or raises, so a number is not handed out again after a
  failed save.
\<close>

theorem generate_account_number_spec:
  "(case generate_account_number self of
      (s, self') \<Rightarrow>
        self' = self\<lparr>current_account_number := current_account_number self + 1\<rparr>
        \<and> int_str s = current_account_number self + 1
        \<and> list_all ascii_digit s
        \<and> 10 \<le> length s
        \<and> (length s = 10 \<longleftrightarrow> current_account_number self + 1 < 10 ^ 10))
   \<and> sorted_wrt (<) (map int_str (issued w cs))
   \<and> distinct (issued w cs)
   \<and> (\<forall>s \<in> set (issued w cs). current_account_number (account_repository w) < int_str s)
   \<and> current_account_number (account_repository (snd (create_account w c u)))
       = current_account_number (account_repository w) + 1"
proof -
  have "case generate_account_number self of
      (s, self') \<Rightarrow>
        self' = self\<lparr>current_account_number := current_account_number self + 1\<rparr>
        \<and> int_str s = current_account_number self + 1
        \<and> list_all ascii_digit s
        \<and> 10 \<le> length s
        \<and> (length s = 10 \<longleftrightarrow> current_account_number self + 1 < 10 ^ 10)"
    unfolding generate_account_number_def
    by (simp only: Let_def prod.case int_str_format format_digits length_format_10)
       (simp add: length_format)
  moreover have "counter (snd (create_account w c u)) = counter w + 1"
    using counter_step [of w "Call_create_account c u"] by simp
  ultimately show ?thesis
    using issued_increasing [of w cs] issued_distinct [of w cs] by blast
qed

lemma digit_chars:
  "char_of (48::nat) = CHR ''0''" "char_of (49::nat) = CHR ''1''"
  by code_simp+

lemma format_overflow: "format_010d 10000000000 = ''10000000000''"
  by (simp add: format_010d_def str_nat.simps digit_chars)

lemma counter_run_generate:
  "counter (run w (replicate n Call_generate_account_number)) = counter w + n"
  by (induction n arbitrary: w) (simp_all add: counter_step del: step.simps)

lemma generate_at_limit:
  "counter w = 9999999999 \<Longrightarrow>
     fst (generate_account_number (account_repository w)) = ''10000000000''"
  by (simp add: generate_account_number_def format_overflow)

text \<open>
  The claim that every call returns 10 digits fails at the call number \<open>10 ^ 10\<close>: in the
  demonstration state the counter is 2, and after 9999999997 more calls the next call
  returns \<^verbatim>\<open>10000000000\<close>, which has 11 characters.
\<close>

theorem generate_account_number_counterexample:
  "fst (generate_account_number (account_repository
          (run scenario_world (replicate 9999999997 Call_generate_account_number))))
     = ''10000000000''
   \<and> length (fst (generate_account_number (account_repository
          (run scenario_world (replicate 9999999997 Call_generate_account_number))))) = 11"
proof -
  have c: "counter (run scenario_world (replicate 9999999997 Call_generate_account_number))
      = 9999999999"
    by (simp only: counter_run_generate) (simp add: scenario_world_def)
  have 1: "fst (generate_account_number (account_repository
          (run scenario_world (replicate 9999999997 Call_generate_account_number))))
     = ''10000000000''"
    by (rule generate_at_limit [OF c])
  have 2: "length (fst (generate_account_number (account_repository
          (run scenario_world (replicate 9999999997 Call_generate_account_number))))) = 11"
    by (simp only: 1) simp
  from 1 2 show ?thesis by (rule conjI)
qed

lemma format_scenario:
  "format_010d 3 = ''0000000003''" "format_010d 4 = ''0000000004''"
  by code_simp+

lemma issued_scenario:
  "issued scenario_world
     [Call_create_account scenario_customer 7, Call_create_account scenario_customer 9]
   = [''0000000003'', ''0000000004'']"
proof -
  have c: "current_account_number (account_repository scenario_world) = 2"
    by (simp add: scenario_world_def)
  have "Suc (Suc (Suc 0)) = 3" "Suc (Suc (Suc (Suc 0))) = 4" by simp_all
  then show ?thesis
    using format_scenario
    by (simp add: generate_account_number_def counter_step c del: step.simps)
qed

theorem generate_account_number_spec_witness:
  "issued scenario_world
     [Call_create_account scenario_customer 7, Call_create_account scenario_customer 9]
     = [''0000000003'', ''0000000004'']
   \<and> fst (create_account scenario_world scenario_customer 7)
       = Inl (ValueError ''Account already exists'')
   \<and> current_account_number
        (account_repository (snd (create_account scenario_world scenario_customer 7))) = 3
   \<and> 2 < int_str ''0000000003''
   \<and> int_str ''0000000003'' < int_str ''0000000004''"
proof -
  have c: "current_account_number (account_repository scenario_world) = 2"
    "accounts (account_repository scenario_world) 7 = Some 0"
    by (simp_all add: scenario_world_def)
  have f: "fst (create_account scenario_world scenario_customer 7)
      = Inl (ValueError ''Account already exists'')"
    by (simp add: create_account_eq Let_def c domIff)
  note t = generate_account_number_spec
    [of "account_repository scenario_world" scenario_world
        "[Call_create_account scenario_customer 7, Call_create_account scenario_customer 9]"
        scenario_customer 7, unfolded issued_scenario]
  from t have 1: "sorted_wrt (<) (map int_str [''0000000003'', ''0000000004''])"
    by blast
  from t have 2: "\<forall>s \<in> set [''0000000003'', ''0000000004''].
      current_account_number (account_repository scenario_world) < int_str s"
    by blast
  from t have 3: "current_account_number
        (account_repository (snd (create_account scenario_world scenario_customer 7)))
      = current_account_number (account_repository scenario_world) + 1"
    by blast
  from 1 2 3 have "2 < int_str ''0000000003'' \<and> int_str ''0000000003'' < int_str ''0000000004''
      \<and> current_account_number
           (account_repository (snd (create_account scenario_world scenario_customer 7))) = 3"
    by (simp add: c)
  with issued_scenario f show ?thesis
    by blast
qed

section \<open>Customer\<close>

lemma spec_email_ok_at: "spec_email_ok em \<Longrightarrow> CHR ''@'' \<in> set em"
proof (rule ccontr)
  assume "spec_email_ok em" and "CHR ''@'' \<notin> set em"
  then have "count_list em (CHR ''@'') = 1" and "count_list em (CHR ''@'') = 0"
    by (simp_all add: spec_email_ok_def)
  then show False by simp
qed

lemma isdigit_scenario: "isdigit ''639213423123''" "\<not> isdigit ''63921342312x''"
  by (simp_all add: isdigit_def isdigit_char_def)

text \<open>
  C6, as the code has it. Constructing a customer raises the phone error whenever the
  phone is not a string of exactly 12 digits, and raises it only for a phone that is not
  12 digits beginning with \<^verbatim>\<open>63\<close>. It raises the email error only for an email without
  \<^verbatim>\<open>@\<close>. For a phone of 12 digits beginning with \<^verbatim>\<open>63\<close> it raises the email error exactly
  when the email holds no \<^verbatim>\<open>@\<close>, and returns the customer otherwise; so it returns
  whenever the phone and the email meet the specification's conditions.
\<close>

theorem new_Customer_spec:
  "(\<not> (isdigit ph \<and> length ph = 12) \<longrightarrow>
      new_Customer nm em ph cid = Inl (ValueError
        ''Invalid phone number. Please input phone number starting with '63' PH code''))
   \<and> (new_Customer nm em ph cid = Inl (ValueError
        ''Invalid phone number. Please input phone number starting with '63' PH code'')
      \<longrightarrow> \<not> spec_phone_ok ph)
   \<and> (new_Customer nm em ph cid = Inl (ValueError ''Invalid email'')
      \<longrightarrow> CHR ''@'' \<notin> set em \<and> \<not> spec_email_ok em)
   \<and> (spec_phone_ok ph \<longrightarrow>
        (new_Customer nm em ph cid = Inl (ValueError ''Invalid email'')
           \<longleftrightarrow> CHR ''@'' \<notin> set em)
        \<and> (CHR ''@'' \<in> set em \<longrightarrow>
             new_Customer nm em ph cid =
               Inr \<lparr>name = nm, email = em, phone_number = ph, customer_id = cid\<rparr>))
   \<and> (spec_phone_ok ph \<and> spec_email_ok em \<longrightarrow>
        new_Customer nm em ph cid =
          Inr \<lparr>name = nm, email = em, phone_number = ph, customer_id = cid\<rparr>)"
  using spec_email_ok_at [of em]
  by (auto simp: new_Customer_def spec_phone_ok_def)

theorem new_Customer_spec_witness:
  "new_Customer ''A'' ''a@x.com'' ''63921342312x'' 1 = Inl (ValueError
      ''Invalid phone number. Please input phone number starting with '63' PH code'')
   \<and> new_Customer ''A'' ''ax.com'' ''639213423123'' 1 = Inl (ValueError ''Invalid email'')
   \<and> new_Customer ''A'' ''a@x.com'' ''639213423123'' 1 =
       Inr \<lparr>name = ''A'', email = ''a@x.com'', phone_number = ''639213423123'',
            customer_id = 1\<rparr>
   \<and> \<not> spec_email_ok ''ax.com''"
proof -
  have p: "spec_phone_ok ''639213423123''"
    by (simp add: spec_phone_ok_def isdigit_scenario)
  have e: "spec_email_ok ''a@x.com''"
    by (simp add: spec_email_ok_def)
  have n: "CHR ''@'' \<notin> set ''ax.com''" by simp
  from new_Customer_spec [of "''63921342312x''" "''A''" "''a@x.com''" 1] isdigit_scenario
  have 1: "new_Customer ''A'' ''a@x.com'' ''63921342312x'' 1 = Inl (ValueError
      ''Invalid phone number. Please input phone number starting with '63' PH code'')"
    by blast
  from new_Customer_spec [of "''639213423123''" "''A''" "''ax.com''" 1] p n
  have 2: "new_Customer ''A'' ''ax.com'' ''639213423123'' 1 = Inl (ValueError ''Invalid email'')"
    by blast
  with new_Customer_spec [of "''639213423123''" "''A''" "''ax.com''" 1]
  have 3: "\<not> spec_email_ok ''ax.com''" by blast
  from new_Customer_spec [of "''639213423123''" "''A''" "''a@x.com''" 1] p e
  have 4: "new_Customer ''A'' ''a@x.com'' ''639213423123'' 1 =
       Inr \<lparr>name = ''A'', email = ''a@x.com'', phone_number = ''639213423123'',
            customer_id = 1\<rparr>"
    by blast
  from 1 2 3 4 show ?thesis by blast
qed

text \<open>
  The claim that an email must hold exactly one \<^verbatim>\<open>@\<close> between parts that are not empty
  fails: the email \<^verbatim>\<open>@\<close>, with a phone of 12 digits beginning with \<^verbatim>\<open>63\<close>, is accepted.
\<close>

theorem new_Customer_counterexample:
  "spec_phone_ok ''639213423123'' \<and> \<not> spec_email_ok ''@''
   \<and> new_Customer ''A'' ''@'' ''639213423123'' 1 =
       Inr \<lparr>name = ''A'', email = ''@'', phone_number = ''639213423123'', customer_id = 1\<rparr>"
  by (simp add: new_Customer_def spec_phone_ok_def spec_email_ok_def isdigit_scenario)

section \<open>Amounts of zero\<close>

text \<open>
  C4. \<^verbatim>\<open>Account.deposit\<close> tests \<open>amount < 0\<close>: a deposit of 0 does not raise the error whose
  message is "Deposit amount must be greater than 0"; it returns and leaves the account as
  it was.
\<close>

theorem deposit_zero_accepted:
  "deposit scenario_account 0 = Inr scenario_account"
  by (simp add: deposit_def scenario_account_def)

text \<open>
  C3. \<^verbatim>\<open>make_transaction\<close> with a deposit of 0 returns, and the record it stores in the
  history of the account has amount 0.
\<close>

theorem zero_amount_recorded:
  "fst (make_transaction scenario_world 7 0 DEPOSIT 3 9) = Inr ()
   \<and> get_transactions
        (transaction_repository (snd (make_transaction scenario_world 7 0 DEPOSIT 3 9))) 7
       = Inr [create_transaction_record 7 0 DEPOSIT 3 9]
   \<and> amount (create_transaction_record 7 0 DEPOSIT 3 9) = 0"
  by (simp add: make_transaction_eq applied_def scenario_world_def scenario_account_def
        get_transactions_def history_def create_transaction_record_def)

end
